theory Spec2Isabelle
  imports Main
begin

section \<open>Strings, paths and dictionaries of the Python runtime\<close>

text \<open>
  The script \<^verbatim>\<open>validate_package.py\<close> is glue code around the file system, an archive
  library and three collaborators of the same repository (\<^verbatim>\<open>scan_for_updates\<close>,
  \<^verbatim>\<open>utils\<close>).  A character of the model is a code point below 256, so a string is a
  Python string over Latin-1; code points from 256 on are outside the model.
\<close>

datatype error =
    KeyError string
  | IndexError
  | TypeError
  | FileNotFoundError string
  | FileExistsError string
  | NotADirectoryError string
  | ExternalError string

text \<open>\<^verbatim>\<open>s.split(c)\<close> with an explicit one-character separator: every occurrence
  of the separator cuts, empty pieces are kept, and the result is never empty.\<close>

fun split_on :: "char \<Rightarrow> string \<Rightarrow> string list" where
  "split_on c [] = [[]]"
| "split_on c (x # xs) =
     (if x = c then [] # split_on c xs
      else (case split_on c xs of
              [] \<Rightarrow> [[x]]
            | w # ws \<Rightarrow> (x # w) # ws))"

text \<open>\<^verbatim>\<open>xs[0]\<close> and \<^verbatim>\<open>xs[-1]\<close>: an empty list raises \<^verbatim>\<open>IndexError\<close>.\<close>

definition item_first :: "'a list \<Rightarrow> error + 'a" where
  "item_first xs = (case xs of [] \<Rightarrow> Inl IndexError | x # _ \<Rightarrow> Inr x)"

definition item_last :: "'a list \<Rightarrow> error + 'a" where
  "item_last xs = (if xs = [] then Inl IndexError else Inr (last xs))"

text \<open>\<^verbatim>\<open>d[k]\<close> on a dictionary: a missing key raises \<^verbatim>\<open>KeyError\<close>.\<close>

definition getitem :: "(string \<rightharpoonup> string) \<Rightarrow> string \<Rightarrow> error + string" where
  "getitem d k = (case d k of None \<Rightarrow> Inl (KeyError k) | Some v \<Rightarrow> Inr v)"

definition endswith :: "string \<Rightarrow> string \<Rightarrow> bool" where
  "endswith s suffix =
     (length suffix \<le> length s \<and> drop (length s - length suffix) s = suffix)"

text \<open>\<^verbatim>\<open>str.lower\<close> on code points below 256: it changes the letters \<^verbatim>\<open>A\<close> to
  \<^verbatim>\<open>Z\<close> and the capital letters U+00C0 to U+00DE (all but the multiplication sign
  U+00D7), each to the code point 32 above it, and nothing else.\<close>

definition latin1_upper :: string where
  "latin1_upper =
     [CHR 0xC0, CHR 0xC1, CHR 0xC2, CHR 0xC3, CHR 0xC4, CHR 0xC5,
      CHR 0xC6, CHR 0xC7, CHR 0xC8, CHR 0xC9, CHR 0xCA, CHR 0xCB,
      CHR 0xCC, CHR 0xCD, CHR 0xCE, CHR 0xCF, CHR 0xD0, CHR 0xD1,
      CHR 0xD2, CHR 0xD3, CHR 0xD4, CHR 0xD5, CHR 0xD6, CHR 0xD8,
      CHR 0xD9, CHR 0xDA, CHR 0xDB, CHR 0xDC, CHR 0xDD, CHR 0xDE]"

definition latin1_lower :: string where
  "latin1_lower =
     [CHR 0xE0, CHR 0xE1, CHR 0xE2, CHR 0xE3, CHR 0xE4, CHR 0xE5,
      CHR 0xE6, CHR 0xE7, CHR 0xE8, CHR 0xE9, CHR 0xEA, CHR 0xEB,
      CHR 0xEC, CHR 0xED, CHR 0xEE, CHR 0xEF, CHR 0xF0, CHR 0xF1,
      CHR 0xF2, CHR 0xF3, CHR 0xF4, CHR 0xF5, CHR 0xF6, CHR 0xF8,
      CHR 0xF9, CHR 0xFA, CHR 0xFB, CHR 0xFC, CHR 0xFD, CHR 0xFE]"

definition lower_char :: "char \<Rightarrow> char" where
  "lower_char c =
     (case map_of (zip (''ABCDEFGHIJKLMNOPQRSTUVWXYZ'' @ latin1_upper)
                       (''abcdefghijklmnopqrstuvwxyz'' @ latin1_lower)) c of
        Some d \<Rightarrow> d
      | None \<Rightarrow> c)"

definition lower :: "string \<Rightarrow> string" where
  "lower s = map lower_char s"

definition upper_case :: string where
  "upper_case = ''ABCDEFGHIJKLMNOPQRSTUVWXYZ'' @ latin1_upper"

text \<open>\<^verbatim>\<open>os.path.join(a, b)\<close> of \<^verbatim>\<open>posixpath\<close> with two arguments: an absolute second
  component replaces the first; otherwise a single slash separates them unless the first
  is empty or already ends in a slash.\<close>

definition join :: "string \<Rightarrow> string \<Rightarrow> string" where
  "join a b =
     (if b \<noteq> [] \<and> hd b = CHR ''/'' then b
      else if a = [] \<or> last a = CHR ''/'' then a @ b
      else a @ ''/'' @ b)"

text \<open>A value that is a string or \<^verbatim>\<open>None\<close>: \<^verbatim>\<open>os.path.join\<close> raises
  \<^verbatim>\<open>TypeError\<close> on \<^verbatim>\<open>None\<close>, \<^verbatim>\<open>str.format\<close> prints it as \<^verbatim>\<open>None\<close>.\<close>

definition join_opt :: "string option \<Rightarrow> string \<Rightarrow> error + string" where
  "join_opt a b = (case a of None \<Rightarrow> Inl TypeError | Some p \<Rightarrow> Inr (join p b))"

definition py_str :: "string option \<Rightarrow> string" where
  "py_str a = (case a of None \<Rightarrow> ''None'' | Some p \<Rightarrow> p)"

section \<open>File system, console and collaborators\<close>

text \<open>
  A file system is a snapshot: it sends every path string to what that string resolves
  to, if anything, and a directory carries its listing in the order \<^verbatim>\<open>os.listdir\<close>
  returns it.  Reading the snapshot is all the script's tests do.  How a call that writes
  changes the snapshot (the new entry, its other spellings, the listing of its parent) and
  when it raises (a missing parent, an entry in the way, permissions) is the business of
  the operating system and the libraries: such calls are parameters below.
\<close>

datatype node = File string | Dir "string list"

type_synonym fs = "string \<rightharpoonup> node"

text \<open>What a run leaves behind, in order: the lines this script prints through
  \<^verbatim>\<open>utils.notice\<close> and \<^verbatim>\<open>utils.warning\<close>, and its calls to the operating system,
  the archive library and the collaborators.\<close>

datatype event =
    Notice string
  | Warning string
  | Call_exists string
  | Call_mkdir string
  | Call_listdir string
  | Call_metadata string
  | Call_download_archive string string string nat
  | Call_tar_extractall string string
  | Call_zip_extractall string string
  | Call_sha256 string
  | Call_gap_exec string string

text \<open>
  The functions imported from \<^verbatim>\<open>scan_for_updates\<close> and the archive library are not part
  of the script; they are parameters, and so is \<^verbatim>\<open>os.mkdir\<close>.  Each may raise.
  \<^verbatim>\<open>download_archive\<close> takes the package name, the URL, the target path and the number of
  tries; \<^verbatim>\<open>gap_exec\<close> takes the command text and the command line of the interpreter and
  returns the exit code; the two extractors take the archive path and the target
  directory.  A call that writes returns its outcome together with the file system it
  leaves, also when it raises: what was written before the error stays.
\<close>

record env =
  metadata :: "fs \<Rightarrow> string \<Rightarrow> error + (string \<rightharpoonup> string)"
  download_archive ::
    "string \<Rightarrow> string \<Rightarrow> string \<Rightarrow> nat \<Rightarrow> fs \<Rightarrow> (error + unit) \<times> fs"
  sha256 :: "fs \<Rightarrow> string \<Rightarrow> error + string"
  gap_exec :: "string \<Rightarrow> string \<Rightarrow> fs \<Rightarrow> error + int"
  tar_extractall :: "string \<Rightarrow> string \<Rightarrow> fs \<Rightarrow> (error + unit) \<times> fs"
  zip_extractall :: "string \<Rightarrow> string \<Rightarrow> fs \<Rightarrow> (error + unit) \<times> fs"
  mkdir :: "string \<Rightarrow> fs \<Rightarrow> (error + unit) \<times> fs"
  dir_of_this_file :: string

text \<open>A computation reads and updates the file system, may raise, and appends events.
  Effects made before a raise persist.\<close>

type_synonym 'a prog = "fs \<Rightarrow> (error + 'a) \<times> fs \<times> event list"

definition ret :: "'a \<Rightarrow> 'a prog" where
  "ret x s = (Inr x, s, [])"

definition bnd :: "'a prog \<Rightarrow> ('a \<Rightarrow> 'b prog) \<Rightarrow> 'b prog" where
  "bnd m f s =
     (case m s of
        (Inl e, s1, ev1) \<Rightarrow> (Inl e, s1, ev1)
      | (Inr x, s1, ev1) \<Rightarrow> (case f x s1 of (r, s2, ev2) \<Rightarrow> (r, s2, ev1 @ ev2)))"

definition lift :: "error + 'a \<Rightarrow> 'a prog" where
  "lift r s = (r, s, [])"

definition notice :: "string \<Rightarrow> unit prog" where
  "notice msg s = (Inr (), s, [Notice msg])"

definition warning :: "string \<Rightarrow> unit prog" where
  "warning msg s = (Inr (), s, [Warning msg])"

definition call_read :: "event \<Rightarrow> (fs \<Rightarrow> error + 'a) \<Rightarrow> 'a prog" where
  "call_read ev f s = (f s, s, [ev])"

definition call_write :: "event \<Rightarrow> (fs \<Rightarrow> (error + unit) \<times> fs) \<Rightarrow> unit prog" where
  "call_write ev f s = (case f s of (r, s') \<Rightarrow> (r, s', [ev]))"

definition os_path_exists :: "string \<Rightarrow> bool prog" where
  "os_path_exists p = call_read (Call_exists p) (\<lambda>s. Inr (s p \<noteq> None))"

definition os_mkdir :: "env \<Rightarrow> string \<Rightarrow> unit prog" where
  "os_mkdir E p = call_write (Call_mkdir p) (mkdir E p)"

definition os_listdir :: "string \<Rightarrow> string list prog" where
  "os_listdir p =
     call_read (Call_listdir p)
       (\<lambda>s. case s p of
               None \<Rightarrow> Inl (FileNotFoundError p)
             | Some (File _) \<Rightarrow> Inl (NotADirectoryError p)
             | Some (Dir xs) \<Rightarrow> Inr xs)"

section \<open>The script\<close>

subsection \<open>\<^verbatim>\<open>unpack_archive\<close>\<close>

definition msg_unpacking :: "string \<Rightarrow> string \<Rightarrow> string \<Rightarrow> string" where
  "msg_unpacking pkg_name archive_fname unpack_dir =
     pkg_name @ '': unpacking '' @ archive_fname @ '' into '' @ unpack_dir @ '' ...''"

definition msg_bad_ext :: "string \<Rightarrow> string \<Rightarrow> string \<Rightarrow> string" where
  "msg_bad_ext pkg_name ext archive_fname =
     pkg_name @ '': bad archive extension '' @ ext @ '', skipping '' @ archive_fname"

definition unpack_archive :: "env \<Rightarrow> string \<Rightarrow> string \<Rightarrow> string \<Rightarrow> unit prog" where
  "unpack_archive E unpack_dir pkg_name archive_fname =
     bnd (os_path_exists unpack_dir) (\<lambda>present.
     bnd (if \<not> present then os_mkdir E unpack_dir else ret ()) (\<lambda>_.
     bnd (lift (item_last (split_on CHR ''.'' archive_fname))) (\<lambda>ext.
     bnd (notice (msg_unpacking pkg_name archive_fname unpack_dir)) (\<lambda>_.
     if endswith ext ''gz'' \<or> endswith ext ''bz2'' then
       call_write (Call_tar_extractall archive_fname unpack_dir)
         (tar_extractall E archive_fname unpack_dir)
     else if endswith ext ''zip'' then
       call_write (Call_zip_extractall archive_fname unpack_dir)
         (zip_extractall E archive_fname unpack_dir)
     else
       notice (msg_bad_ext pkg_name ext archive_fname)))))"

subsection \<open>\<^verbatim>\<open>unpacked_archive_name\<close>\<close>

text \<open>The loop over the listing; the test lowers the entry's prefix only and compares
  it with the package name as given.\<close>

fun scan_entries :: "string \<Rightarrow> string \<Rightarrow> string list \<Rightarrow> string option" where
  "scan_entries unpack_dir pkg_name [] = None"
| "scan_entries unpack_dir pkg_name (x # xs) =
     (if length x \<ge> length pkg_name \<and> lower (take (length pkg_name) x) = pkg_name
      then Some (join unpack_dir x)
      else scan_entries unpack_dir pkg_name xs)"

text \<open>The warning is printed as written: the placeholder is never filled in.\<close>

definition msg_no_dir :: string where
  "msg_no_dir =
     ''{}: couldn'' @ [CHR 0x27] @ ''t determine the unpacked archive directory!''"

definition unpacked_archive_name :: "string \<Rightarrow> string \<Rightarrow> string option prog" where
  "unpacked_archive_name unpack_dir pkg_name =
     bnd (os_listdir unpack_dir) (\<lambda>entries.
     case scan_entries unpack_dir pkg_name entries of
       Some p \<Rightarrow> ret (Some p)
     | None \<Rightarrow>
         bnd (warning msg_no_dir) (\<lambda>_. ret None))"

subsection \<open>\<^verbatim>\<open>validate_package\<close>\<close>

text \<open>The three messages.  They name \<^verbatim>\<open>meta.yml\<close>; the file tested is
  \<^verbatim>\<open>meta.json.old\<close>.\<close>

definition msg_pkg_info :: "string \<Rightarrow> string \<Rightarrow> string" where
  "msg_pkg_info pkg_name pkg_info_name =
     pkg_name @ '': '' @ pkg_name @ ''/meta.yml:PackageInfoSHA256 is not the SHA256 of ''
     @ pkg_info_name @ '', FAILED!''"

definition msg_archive :: "string \<Rightarrow> string \<Rightarrow> string" where
  "msg_archive pkg_name packed_name =
     pkg_name @ '': '' @ pkg_name @ ''/meta.yml:ArchiveSHA256 is not the SHA256 of ''
     @ packed_name @ '', FAILED!''"

definition msg_missing :: "string \<Rightarrow> string" where
  "msg_missing pkg_name =
     pkg_name @ '': the file '' @ pkg_name @ ''/meta.yml.old is missing, FAILED!''"

text \<open>The variable \<^verbatim>\<open>result\<close> starts as \<^verbatim>\<open>True\<close>; each check either leaves it or
  sets it to \<^verbatim>\<open>False\<close> after its warning.  In each comparison the dictionary is read
  before the hash is computed.\<close>

definition validate_package ::
  "env \<Rightarrow> string \<Rightarrow> string option \<Rightarrow> string \<Rightarrow> (string \<rightharpoonup> string) \<Rightarrow> bool prog" where
  "validate_package E pkg_name unpacked_name packed_name pkg_json =
     bnd (lift (join_opt unpacked_name ''PackageInfo.g'')) (\<lambda>pkg_info_name.
     bnd (lift (getitem pkg_json ''PackageInfoSHA256'')) (\<lambda>h1.
     bnd (call_read (Call_sha256 pkg_info_name) (\<lambda>s. sha256 E s pkg_info_name)) (\<lambda>d1.
     bnd (if h1 \<noteq> d1
          then bnd (warning (msg_pkg_info pkg_name pkg_info_name)) (\<lambda>_. ret False)
          else ret True) (\<lambda>result1.
     bnd (lift (getitem pkg_json ''ArchiveSHA256'')) (\<lambda>h2.
     bnd (call_read (Call_sha256 packed_name) (\<lambda>s. sha256 E s packed_name)) (\<lambda>d2.
     bnd (if h2 \<noteq> d2
          then bnd (warning (msg_archive pkg_name packed_name)) (\<lambda>_. ret False)
          else ret result1) (\<lambda>result2.
     bnd (os_path_exists (join pkg_name ''meta.json.old'')) (\<lambda>present.
     bnd (if \<not> present
          then bnd (warning (msg_missing pkg_name)) (\<lambda>_. ret False)
          else ret result2) (\<lambda>result3.
     ret result3)))))))))"

subsection \<open>\<^verbatim>\<open>main\<close> and the loop over the arguments\<close>

definition unpack_dir :: string where
  "unpack_dir = ''_unpacked_archives''"

definition archive_dir :: string where
  "archive_dir = ''_archives''"

text \<open>The command text is a raw string literal: each argument is wrapped in a
  backslash followed by a double quote.\<close>

definition bsq :: string where
  "bsq = [CHR 0x5C, CHR 0x22]"

definition gap_command :: "string option \<Rightarrow> string \<Rightarrow> string" where
  "gap_command unpacked_name pkg_name =
     ''ValidatePackagesArchive('' @ bsq @ py_str unpacked_name @ bsq @ '', '' @ bsq
     @ pkg_name @ bsq @ '');''"

definition gap_line :: "env \<Rightarrow> string" where
  "gap_line E = ''gap '' @ dir_of_this_file E @ ''/validate_package.g''"

definition msg_failed :: "string \<Rightarrow> string" where
  "msg_failed pkg_name = pkg_name @ '': validation FAILED!''"

definition msg_ok :: "string \<Rightarrow> string" where
  "msg_ok pkg_name = pkg_name @ '': validated ok!''"

definition main :: "env \<Rightarrow> string \<Rightarrow> unit prog" where
  "main E pkg_name =
     bnd (call_read (Call_metadata pkg_name) (\<lambda>s. metadata E s pkg_name)) (\<lambda>pkg_json.
     bnd (lift (getitem pkg_json ''ArchiveFormats'')) (\<lambda>formats.
     bnd (lift (item_first (split_on CHR '' '' formats))) (\<lambda>fmt.
     bnd (lift (getitem pkg_json ''ArchiveURL'')) (\<lambda>archive_url.
     let url = archive_url @ fmt in
     bnd (lift (getitem pkg_json ''ArchiveURL'')) (\<lambda>archive_url2.
     bnd (lift (item_last (split_on CHR ''/'' archive_url2))) (\<lambda>seg.
     let packed_name = join archive_dir (seg @ fmt) in
     bnd (call_write (Call_download_archive pkg_name url packed_name 5)
            (download_archive E pkg_name url packed_name 5)) (\<lambda>_.
     bnd (unpack_archive E unpack_dir pkg_name packed_name) (\<lambda>_.
     bnd (unpacked_archive_name unpack_dir pkg_name) (\<lambda>unpacked_name.
     bnd (validate_package E pkg_name unpacked_name packed_name pkg_json) (\<lambda>ok.
     if ok then
       bnd (call_read (Call_gap_exec (gap_command unpacked_name pkg_name) (gap_line E))
              (gap_exec E (gap_command unpacked_name pkg_name) (gap_line E))) (\<lambda>code.
       if code \<noteq> 0 then warning (msg_failed pkg_name) else notice (msg_ok pkg_name))
     else ret ()))))))))))"

text \<open>\<^verbatim>\<open>for i in range(1, len(sys.argv)): main(sys.argv[i])\<close>: no handler surrounds the
  call, so a raise ends the loop.\<close>

primrec batch :: "env \<Rightarrow> string list \<Rightarrow> unit prog" where
  "batch E [] = ret ()"
| "batch E (p # ps) = bnd (main E p) (\<lambda>_. batch E ps)"

definition script :: "env \<Rightarrow> string list \<Rightarrow> unit prog" where
  "script E argv = batch E (drop 1 argv)"

section \<open>Notions used in the statements\<close>

text \<open>The test of the loop in \<^verbatim>\<open>unpacked_archive_name\<close>, and what the specification
  calls a case-insensitive prefix match: there both sides are lowered.\<close>

definition entry_matches :: "string \<Rightarrow> string \<Rightarrow> bool" where
  "entry_matches pkg_name x =
     (length x \<ge> length pkg_name \<and> lower (take (length pkg_name) x) = pkg_name)"

definition ci_startswith :: "string \<Rightarrow> string \<Rightarrow> bool" where
  "ci_startswith x pkg_name =
     (length pkg_name \<le> length x \<and> lower (take (length pkg_name) x) = lower pkg_name)"




text \<open>The body of \<^verbatim>\<open>main\<close> between the metadata lookup and the call of
  \<^verbatim>\<open>validate_package\<close> (acquisition, extraction, directory resolution), as a
  computation of its own that returns the archive path and the resolved directory.\<close>

definition main_prepare ::
  "env \<Rightarrow> string \<Rightarrow> (string \<rightharpoonup> string) \<Rightarrow> (string \<times> string option) prog" where
  "main_prepare E pkg_name pkg_json =
     bnd (lift (getitem pkg_json ''ArchiveFormats'')) (\<lambda>formats.
     bnd (lift (item_first (split_on CHR '' '' formats))) (\<lambda>fmt.
     bnd (lift (getitem pkg_json ''ArchiveURL'')) (\<lambda>archive_url.
     let url = archive_url @ fmt in
     bnd (lift (getitem pkg_json ''ArchiveURL'')) (\<lambda>archive_url2.
     bnd (lift (item_last (split_on CHR ''/'' archive_url2))) (\<lambda>seg.
     let packed_name = join archive_dir (seg @ fmt) in
     bnd (call_write (Call_download_archive pkg_name url packed_name 5)
            (download_archive E pkg_name url packed_name 5)) (\<lambda>_.
     bnd (unpack_archive E unpack_dir pkg_name packed_name) (\<lambda>_.
     bnd (unpacked_archive_name unpack_dir pkg_name) (\<lambda>unpacked_name.
     ret (packed_name, unpacked_name)))))))))"

text \<open>The end of \<^verbatim>\<open>main\<close>: what follows once \<^verbatim>\<open>validate_package\<close> has returned
  \<^verbatim>\<open>ok\<close>.\<close>

definition main_report :: "env \<Rightarrow> string \<Rightarrow> string option \<Rightarrow> bool \<Rightarrow> unit prog" where
  "main_report E pkg_name unpacked_name ok =
     (if ok then
       bnd (call_read (Call_gap_exec (gap_command unpacked_name pkg_name) (gap_line E))
              (gap_exec E (gap_command unpacked_name pkg_name) (gap_line E))) (\<lambda>code.
       if code \<noteq> 0 then warning (msg_failed pkg_name) else notice (msg_ok pkg_name))
     else ret ())"

text \<open>The verdict lines of a package among the events, and the packages whose
  processing was begun, in order.\<close>

definition verdict_lines :: "string \<Rightarrow> event list \<Rightarrow> event list" where
  "verdict_lines pkg_name evs =
     filter (\<lambda>e. e = Notice (msg_ok pkg_name) \<or> e = Warning (msg_failed pkg_name)) evs"

fun started :: "event list \<Rightarrow> string list" where
  "started [] = []"
| "started (Call_metadata p # es) = p # started es"
| "started (_ # es) = started es"

text \<open>An event that is not a verdict line of the package.\<close>

definition not_verdict :: "string \<Rightarrow> event \<Rightarrow> bool" where
  "not_verdict pkg e = (e \<noteq> Notice (msg_ok pkg) \<and> e \<noteq> Warning (msg_failed pkg))"

definition emits_only :: "(event \<Rightarrow> bool) \<Rightarrow> 'a prog \<Rightarrow> bool" where
  "emits_only P m = (\<forall>s. \<forall>e \<in> set (snd (snd (m s))). P e)"

section \<open>A small world to run the script in\<close>

text \<open>
  Three packages are known to the metadata provider: \<^verbatim>\<open>walrus\<close> (a gzip tarball),
  \<^verbatim>\<open>aclib\<close> (an archive format the script does not know) and \<^verbatim>\<open>edge\<close> (a download
  address ending in a slash and a format entry beginning with one).  The digest of a file is
  its content, every tarball holds the tree \<^verbatim>\<open>Walrus-0.9991/PackageInfo.g\<close>, a download
  creates the target unless it is there, and the validator exits with 0.  Creating a
  directory fails for the empty path, for an entry that is there, and for a path whose
  parent is named and is not a directory.
\<close>

definition dirname :: "string \<Rightarrow> string" where
  "dirname p = rev (drop 1 (dropWhile (\<lambda>c. c \<noteq> CHR ''/'') (rev p)))"

definition demo_mkdir :: "string \<Rightarrow> fs \<Rightarrow> (error + unit) \<times> fs" where
  "demo_mkdir p s =
     (if p = [] then (Inl (FileNotFoundError p), s)
      else if s p \<noteq> None then (Inl (FileExistsError p), s)
      else if dirname p = [] then (Inr (), s(p \<mapsto> Dir []))
      else (case s (dirname p) of
              Some (Dir _) \<Rightarrow> (Inr (), s(p \<mapsto> Dir []))
            | Some (File _) \<Rightarrow> (Inl (NotADirectoryError p), s)
            | None \<Rightarrow> (Inl (FileNotFoundError p), s)))"

definition walrus_json :: "string \<rightharpoonup> string" where
  "walrus_json = map_of
     [(''ArchiveFormats'', ''.tar.gz .tar.bz2''),
      (''ArchiveURL'', ''https://example.org/dl/walrus-0.9991''),
      (''PackageInfoSHA256'', ''1f''),
      (''ArchiveSHA256'', ''2e'')]"

definition aclib_json :: "string \<rightharpoonup> string" where
  "aclib_json = map_of
     [(''ArchiveFormats'', ''.rar''),
      (''ArchiveURL'', ''https://example.org/dl/aclib-1.3.2''),
      (''PackageInfoSHA256'', ''3d''),
      (''ArchiveSHA256'', ''4c'')]"

definition edge_json :: "string \<rightharpoonup> string" where
  "edge_json = map_of
     [(''ArchiveFormats'', ''/tmp/x.tar.gz''),
      (''ArchiveURL'', ''https://example.org/dl/''),
      (''PackageInfoSHA256'', ''1f''),
      (''ArchiveSHA256'', ''2e'')]"

definition demo_env :: env where
  "demo_env =
     \<lparr> metadata = (\<lambda>s pkg.
         if pkg = ''walrus'' then Inr walrus_json
         else if pkg = ''aclib'' then Inr aclib_json
         else if pkg = ''edge'' then Inr edge_json
         else Inl (FileNotFoundError (join pkg ''meta.json''))),
       download_archive = (\<lambda>pkg url target tries s.
         (Inr (), if s target = None then s(target \<mapsto> File ''2e'') else s)),
       sha256 = (\<lambda>s p.
         case s p of Some (File c) \<Rightarrow> Inr c | _ \<Rightarrow> Inl (FileNotFoundError p)),
       gap_exec = (\<lambda>cmd line s. Inr 0),
       tar_extractall = (\<lambda>archive d s.
         (Inr (), s(d \<mapsto> Dir [''Walrus-0.9991''],
                    join (join d ''Walrus-0.9991'') ''PackageInfo.g'' \<mapsto> File ''1f''))),
       zip_extractall = (\<lambda>archive d s. (Inl (ExternalError ''BadZipFile''), s)),
       mkdir = demo_mkdir,
       dir_of_this_file = ''/srv/_tools'' \<rparr>"

text \<open>The archive of \<^verbatim>\<open>walrus\<close> is already downloaded; the second world also holds the
  snapshot \<^verbatim>\<open>walrus/meta.json.old\<close>.\<close>

definition fs_walrus :: fs where
  "fs_walrus = Map.empty(''_archives/walrus-0.9991.tar.gz'' \<mapsto> File ''2e'')"

definition fs_walrus_old :: fs where
  "fs_walrus_old = fs_walrus(''walrus/meta.json.old'' \<mapsto> File ''{}'')"

text \<open>The second world once the tarball has been extracted, and a staging directory
  holding three entries.\<close>

definition fs_walrus_unpacked :: fs where
  "fs_walrus_unpacked =
     fs_walrus_old(''_unpacked_archives'' \<mapsto> Dir [''Walrus-0.9991''],
                   ''_unpacked_archives/Walrus-0.9991/PackageInfo.g'' \<mapsto> File ''1f'')"

definition fs_three_entries :: fs where
  "fs_three_entries =
     Map.empty(''_unpacked_archives'' \<mapsto> Dir [''README'', ''Walrus-0.9991'', ''walrus-old''])"

section \<open>Basic facts\<close>

lemmas prog_defs = bnd_def ret_def lift_def notice_def warning_def call_read_def
  call_write_def os_path_exists_def os_mkdir_def os_listdir_def

lemmas lower_defs = lower_def lower_char_def latin1_upper_def latin1_lower_def

lemma lower_char_fixed: "lower_char c = c \<longleftrightarrow> c \<notin> set upper_case"
  by (auto simp: lower_char_def upper_case_def latin1_upper_def latin1_lower_def)

lemma lower_fixed: "lower pkg = pkg \<longleftrightarrow> (\<forall>c \<in> set pkg. c \<notin> set upper_case)"
  by (induction pkg) (auto simp: lower_def lower_char_fixed)

lemma split_on_nonempty: "split_on c s \<noteq> []"
  by (induction s) (auto split: list.splits)

lemma split_on_pieces: "w \<in> set (split_on c s) \<Longrightarrow> c \<notin> set w"
  by (induction s arbitrary: w) (auto split: if_splits list.splits)

lemma scan_entries_find:
  "scan_entries d pkg xs = map_option (join d) (find (entry_matches pkg) xs)"
  by (induction xs) (auto simp: entry_matches_def)

lemma scan_entries_None:
  "scan_entries d pkg xs = None \<longleftrightarrow> (\<forall>x \<in> set xs. \<not> entry_matches pkg x)"
  by (induction xs) (auto simp: entry_matches_def)

subsection \<open>Sequencing, and what a computation may emit\<close>

lemma bnd_assoc: "bnd (bnd m f) g = bnd m (\<lambda>x. bnd (f x) g)"
  by (rule ext) (simp add: bnd_def split: prod.splits sum.splits)

lemma ret_bnd: "bnd (ret x) f = f x"
  by (rule ext) (simp add: bnd_def ret_def split: prod.splits)

lemma bnd_Inr: "m s = (Inr x, s1, ev1) \<Longrightarrow>
  bnd m f s = (fst (f x s1), fst (snd (f x s1)), ev1 @ snd (snd (f x s1)))"
  by (simp add: bnd_def split: prod.splits)

lemma bnd_Inl: "m s = (Inl e, s1, ev1) \<Longrightarrow> bnd m f s = (Inl e, s1, ev1)"
  by (simp add: bnd_def)

lemma main_split:
  "main E pkg =
     bnd (call_read (Call_metadata pkg) (\<lambda>s. metadata E s pkg)) (\<lambda>json.
     bnd (main_prepare E pkg json) (\<lambda>pu.
     bnd (validate_package E pkg (snd pu) (fst pu) json) (\<lambda>ok.
     main_report E pkg (snd pu) ok)))"
  by (simp add: main_def main_prepare_def main_report_def bnd_assoc ret_bnd Let_def cong: if_cong)

lemma emits_only_ret [intro!, simp]: "emits_only P (ret x)"
  by (simp add: emits_only_def ret_def)

lemma emits_only_lift [intro!, simp]: "emits_only P (lift r)"
  by (simp add: emits_only_def lift_def)

lemma emits_only_notice: "P (Notice m) \<Longrightarrow> emits_only P (notice m)"
  by (simp add: emits_only_def notice_def)

lemma emits_only_warning: "P (Warning m) \<Longrightarrow> emits_only P (warning m)"
  by (simp add: emits_only_def warning_def)

lemma emits_only_call_read: "P ev \<Longrightarrow> emits_only P (call_read ev f)"
  by (simp add: emits_only_def call_read_def)

lemma emits_only_call_write: "P ev \<Longrightarrow> emits_only P (call_write ev f)"
  by (simp add: emits_only_def call_write_def split: prod.splits)

lemma emits_only_bnd:
  "emits_only P m \<Longrightarrow> (\<And>x. emits_only P (f x)) \<Longrightarrow> emits_only P (bnd m f)"
proof -
  assume m: "emits_only P m" and f: "\<And>x. emits_only P (f x)"
  show "emits_only P (bnd m f)"
    unfolding emits_only_def
  proof (intro allI ballI)
    fix s e
    assume e: "e \<in> set (snd (snd (bnd m f s)))"
    obtain r s1 ev1 where ms: "m s = (r, s1, ev1)"
      by (cases "m s") auto
    from m ms have p1: "\<forall>e \<in> set ev1. P e"
      by (metis emits_only_def snd_conv)
    show "P e"
    proof (cases r)
      case (Inl err)
      with ms e p1 show ?thesis by (simp add: bnd_def)
    next
      case (Inr x)
      obtain r2 s2 ev2 where fs: "f x s1 = (r2, s2, ev2)"
        by (cases "f x s1") auto
      from f [of x] fs have p2: "\<forall>e \<in> set ev2. P e"
        by (metis emits_only_def snd_conv)
      from Inr ms fs e p1 p2 show ?thesis by (auto simp: bnd_def)
    qed
  qed
qed

lemma emits_only_if:
  "(b \<Longrightarrow> emits_only P m) \<Longrightarrow> (\<not> b \<Longrightarrow> emits_only P n) \<Longrightarrow> emits_only P (if b then m else n)"
  by simp

lemma emits_onlyD: "emits_only P m \<Longrightarrow> m s = (r, s', evs) \<Longrightarrow> e \<in> set evs \<Longrightarrow> P e"
  by (metis emits_only_def snd_conv)

lemmas emits_intros = emits_only_bnd emits_only_if emits_only_notice emits_only_warning
  emits_only_call_read emits_only_call_write

lemma unpack_archive_emits:
  assumes "\<And>a b. P (Call_tar_extractall a b)" "\<And>a b. P (Call_zip_extractall a b)"
    "P (Call_exists d)" "P (Call_mkdir d)" "P (Notice (msg_unpacking pkg fname d))"
    "\<And>ext. P (Notice (msg_bad_ext pkg ext fname))"
  shows "emits_only P (unpack_archive E d pkg fname)"
  unfolding unpack_archive_def os_path_exists_def os_mkdir_def
  by (intro emits_intros emits_only_ret emits_only_lift assms)

lemma unpacked_archive_name_emits:
  assumes "P (Call_listdir d)" "P (Warning msg_no_dir)"
  shows "emits_only P (unpacked_archive_name d pkg)"
  unfolding unpacked_archive_name_def os_listdir_def
  by (auto intro!: emits_intros assms split: option.splits)

lemma validate_package_emits:
  assumes "\<And>p. P (Call_sha256 p)" "\<And>p. P (Call_exists p)"
    "\<And>p. P (Warning (msg_pkg_info pkg p))" "P (Warning (msg_archive pkg packed))"
    "P (Warning (msg_missing pkg))"
  shows "emits_only P (validate_package E pkg u packed json)"
  unfolding validate_package_def os_path_exists_def
  by (intro emits_intros emits_only_ret emits_only_lift assms)

lemma main_prepare_emits:
  assumes "\<And>a b. P (Call_tar_extractall a b)" "\<And>a b. P (Call_zip_extractall a b)"
    "\<And>p. P (Call_exists p)" "\<And>p. P (Call_mkdir p)" "\<And>p. P (Call_listdir p)"
    "\<And>a b c n. P (Call_download_archive a b c n)"
    "\<And>a b. P (Notice (msg_unpacking pkg a b))"
    "\<And>a b. P (Notice (msg_bad_ext pkg a b))"
    "P (Warning msg_no_dir)"
  shows "emits_only P (main_prepare E pkg json)"
  unfolding main_prepare_def Let_def
  by (intro emits_intros emits_only_ret emits_only_lift unpack_archive_emits
        unpacked_archive_name_emits assms)

section \<open>Directory resolution\<close>

text \<open>
  C5, as the specification states it, fails for a package name with an upper-case letter:
  the entry \<^verbatim>\<open>Walrus-0.9991\<close> starts with \<^verbatim>\<open>Walrus\<close> whatever the case, yet the
  loop lowers the entry only, finds no match and returns \<^verbatim>\<open>None\<close>.
\<close>

theorem unpacked_archive_name_uppercase_counterexample:
  "ci_startswith ''Walrus-0.9991'' ''Walrus''
   \<and> unpacked_archive_name ''_unpacked_archives'' ''Walrus''
        (Map.empty(''_unpacked_archives'' \<mapsto> Dir [''Walrus-0.9991'']))
      = (Inr None, Map.empty(''_unpacked_archives'' \<mapsto> Dir [''Walrus-0.9991'']),
         [Call_listdir ''_unpacked_archives'', Warning msg_no_dir])"
  by (simp add: ci_startswith_def unpacked_archive_name_def prog_defs msg_no_dir_def
        lower_defs)

lemma entry_matches_ci_iff:
  "(\<forall>x. entry_matches pkg x = ci_startswith x pkg) \<longleftrightarrow> lower pkg = pkg"
proof
  assume "\<forall>x. entry_matches pkg x = ci_startswith x pkg"
  then have "entry_matches pkg pkg = ci_startswith pkg pkg" by blast
  then show "lower pkg = pkg" by (simp add: entry_matches_def ci_startswith_def)
next
  assume "lower pkg = pkg"
  then show "\<forall>x. entry_matches pkg x = ci_startswith x pkg"
    by (simp add: entry_matches_def ci_startswith_def)
qed

text \<open>
  C5 (amended): for every package name and every listing of the staging directory,
  \<^verbatim>\<open>unpacked_archive_name\<close> returns the path of the first entry, in listing order, whose
  first \<^verbatim>\<open>len(pkg_name)\<close> characters, lowered, equal the package name as given; if there
  is none it returns \<^verbatim>\<open>None\<close> and prints one warning.  This test is the
  case-insensitive prefix match exactly when the package name has no upper-case letter.
\<close>

theorem unpacked_archive_name_first_match:
  assumes "s d = Some (Dir xs)"
  shows "unpacked_archive_name d pkg s =
           (case find (entry_matches pkg) xs of
              Some x \<Rightarrow> (Inr (Some (join d x)), s, [Call_listdir d])
            | None \<Rightarrow> (Inr None, s, [Call_listdir d, Warning msg_no_dir]))
         \<and> ((\<forall>x. entry_matches pkg x = ci_startswith x pkg) \<longleftrightarrow>
              (\<forall>c \<in> set pkg. c \<notin> set upper_case))"
  using assms
  by (simp add: unpacked_archive_name_def scan_entries_find prog_defs entry_matches_ci_iff
        lower_fixed split: option.splits)

theorem unpacked_archive_name_first_match_witness:
  "fs_three_entries ''_unpacked_archives'' = Some (Dir [''README'', ''Walrus-0.9991'', ''walrus-old''])
   \<and> lower ''walrus'' = ''walrus''
   \<and> unpacked_archive_name ''_unpacked_archives'' ''walrus'' fs_three_entries
      = (Inr (Some ''_unpacked_archives/Walrus-0.9991''), fs_three_entries,
         [Call_listdir ''_unpacked_archives''])
   \<and> unpacked_archive_name ''_unpacked_archives'' (CHR 0xE9 # ''cole'')
        (Map.empty(''_unpacked_archives'' \<mapsto> Dir [CHR 0xC9 # ''cole-1.0'']))
      = (Inr (Some (''_unpacked_archives/'' @ CHR 0xC9 # ''cole-1.0'')),
         Map.empty(''_unpacked_archives'' \<mapsto> Dir [CHR 0xC9 # ''cole-1.0'']),
         [Call_listdir ''_unpacked_archives''])"
  using
    unpacked_archive_name_first_match [of fs_three_entries "''_unpacked_archives''"
      "[''README'', ''Walrus-0.9991'', ''walrus-old'']" "''walrus''"]
    unpacked_archive_name_first_match [of
      "Map.empty(''_unpacked_archives'' \<mapsto> Dir [CHR 0xC9 # ''cole-1.0''])"
      "''_unpacked_archives''" "[CHR 0xC9 # ''cole-1.0'']" "CHR 0xE9 # ''cole''"]
  by (simp add: fs_three_entries_def entry_matches_def lower_defs join_def upper_case_def)

text \<open>
  C10: when no entry of the staging directory matches the package name,
  \<^verbatim>\<open>unpacked_archive_name\<close> returns \<^verbatim>\<open>None\<close> after its warning, and
  \<^verbatim>\<open>validate_package\<close> called with that \<^verbatim>\<open>None\<close> raises (the path join rejects it,
  before any hash is computed) instead of returning a boolean.
\<close>

theorem no_match_then_validate_package_raises:
  assumes "s d = Some (Dir xs)"
    and "\<forall>x \<in> set xs. \<not> entry_matches pkg x"
  shows "unpacked_archive_name d pkg s = (Inr None, s, [Call_listdir d, Warning msg_no_dir])
         \<and> validate_package E pkg None packed json s = (Inl TypeError, s, [])"
proof -
  from assms(2) have "scan_entries d pkg xs = None"
    by (simp add: scan_entries_None)
  with assms(1) show ?thesis
    by (simp add: unpacked_archive_name_def prog_defs validate_package_def join_opt_def)
qed

theorem no_match_then_validate_package_raises_witness:
  "unpacked_archive_name ''_unpacked_archives'' ''aclib'' fs_three_entries
     = (Inr None, fs_three_entries, [Call_listdir ''_unpacked_archives'', Warning msg_no_dir])
   \<and> validate_package demo_env ''aclib'' None ''_archives/aclib-1.3.2.rar'' aclib_json
        fs_three_entries
     = (Inl TypeError, fs_three_entries, [])"
  using no_match_then_validate_package_raises [of fs_three_entries "''_unpacked_archives''"
     "[''README'', ''Walrus-0.9991'', ''walrus-old'']" "''aclib''" demo_env
     "''_archives/aclib-1.3.2.rar''" aclib_json]
  by (simp add: fs_three_entries_def entry_matches_def lower_defs)

section \<open>Field validation\<close>

text \<open>
  C1: \<^verbatim>\<open>validate_package\<close> returns \<^verbatim>\<open>True\<close> exactly when the digest of
  \<^verbatim>\<open>PackageInfo.g\<close> in the unpacked directory is the record's \<^verbatim>\<open>PackageInfoSHA256\<close>,
  the digest of the archive is the record's \<^verbatim>\<open>ArchiveSHA256\<close>, and the file
  \<^verbatim>\<open>meta.json.old\<close> of the package exists.
\<close>

theorem validate_package_pass_iff:
  "(\<exists>s' evs. validate_package E pkg u packed json s = (Inr True, s', evs)) \<longleftrightarrow>
   (\<exists>p h1 h2. u = Some p
      \<and> json ''PackageInfoSHA256'' = Some h1 \<and> sha256 E s (join p ''PackageInfo.g'') = Inr h1
      \<and> json ''ArchiveSHA256'' = Some h2 \<and> sha256 E s packed = Inr h2
      \<and> s (join pkg ''meta.json.old'') \<noteq> None)"
  by (cases u; cases "json ''PackageInfoSHA256''"; cases "json ''ArchiveSHA256''";
      cases "sha256 E s (join (the u) ''PackageInfo.g'')"; cases "sha256 E s packed")
     (auto simp: validate_package_def prog_defs join_opt_def getitem_def)

theorem validate_package_pass_iff_witness:
  "\<exists>s' evs. validate_package demo_env ''walrus'' (Some ''_unpacked_archives/Walrus-0.9991'')
      ''_archives/walrus-0.9991.tar.gz'' walrus_json fs_walrus_unpacked = (Inr True, s', evs)"
  using validate_package_pass_iff [of demo_env "''walrus''"
     "Some ''_unpacked_archives/Walrus-0.9991''" "''_archives/walrus-0.9991.tar.gz''"
     walrus_json fs_walrus_unpacked]
  by (simp add: demo_env_def walrus_json_def fs_walrus_unpacked_def fs_walrus_old_def
        fs_walrus_def join_def)

lemma msgs_distinct:
  "msg_pkg_info pkg (join p ''PackageInfo.g'') \<noteq> msg_archive pkg packed"
  "msg_pkg_info pkg (join p ''PackageInfo.g'') \<noteq> msg_missing pkg"
  "msg_archive pkg packed \<noteq> msg_missing pkg"
proof -
  show "msg_pkg_info pkg (join p ''PackageInfo.g'') \<noteq> msg_archive pkg packed"
    by (simp add: msg_pkg_info_def msg_archive_def)
  have "length (msg_pkg_info pkg (join p ''PackageInfo.g'')) \<noteq> length (msg_missing pkg)"
    by (simp add: msg_pkg_info_def msg_missing_def)
  then show "msg_pkg_info pkg (join p ''PackageInfo.g'') \<noteq> msg_missing pkg"
    by metis
  have "length (msg_archive pkg packed) \<noteq> length (msg_missing pkg)"
    by (simp add: msg_archive_def msg_missing_def)
  then show "msg_archive pkg packed \<noteq> msg_missing pkg"
    by metis
qed

text \<open>
  C3: the three checks do not short-circuit.  Whenever the record holds both hash fields
  and both files can be hashed, all three checks are evaluated in order, whatever the
  outcome of the earlier ones; each failing check adds its own warning, the three warnings
  are pairwise different, and the result is the conjunction of the three checks.
\<close>

theorem validate_package_checks_accumulate:
  assumes "json ''PackageInfoSHA256'' = Some h1"
    and "sha256 E s (join p ''PackageInfo.g'') = Inr d1"
    and "json ''ArchiveSHA256'' = Some h2"
    and "sha256 E s packed = Inr d2"
  shows "validate_package E pkg (Some p) packed json s =
           (Inr (h1 = d1 \<and> h2 = d2 \<and> s (join pkg ''meta.json.old'') \<noteq> None), s,
            [Call_sha256 (join p ''PackageInfo.g'')]
            @ (if h1 \<noteq> d1 then [Warning (msg_pkg_info pkg (join p ''PackageInfo.g''))] else [])
            @ [Call_sha256 packed]
            @ (if h2 \<noteq> d2 then [Warning (msg_archive pkg packed)] else [])
            @ [Call_exists (join pkg ''meta.json.old'')]
            @ (if s (join pkg ''meta.json.old'') = None then [Warning (msg_missing pkg)] else []))
         \<and> msg_pkg_info pkg (join p ''PackageInfo.g'') \<noteq> msg_archive pkg packed
         \<and> msg_pkg_info pkg (join p ''PackageInfo.g'') \<noteq> msg_missing pkg
         \<and> msg_archive pkg packed \<noteq> msg_missing pkg"
  using assms msgs_distinct
  by (simp add: validate_package_def prog_defs join_opt_def getitem_def)

theorem validate_package_checks_accumulate_witness:
  "validate_package demo_env ''aclib'' (Some ''_unpacked_archives/Walrus-0.9991'')
      ''_archives/walrus-0.9991.tar.gz'' aclib_json fs_walrus_unpacked
   = (Inr False, fs_walrus_unpacked,
      [Call_sha256 ''_unpacked_archives/Walrus-0.9991/PackageInfo.g'',
       Warning (msg_pkg_info ''aclib'' ''_unpacked_archives/Walrus-0.9991/PackageInfo.g''),
       Call_sha256 ''_archives/walrus-0.9991.tar.gz'',
       Warning (msg_archive ''aclib'' ''_archives/walrus-0.9991.tar.gz''),
       Call_exists ''aclib/meta.json.old'',
       Warning (msg_missing ''aclib'')])"
  using validate_package_checks_accumulate [of aclib_json "''3d''" demo_env fs_walrus_unpacked
     "''_unpacked_archives/Walrus-0.9991''" "''1f''" "''4c''"
     "''_archives/walrus-0.9991.tar.gz''" "''2e''" "''aclib''"]
  by (simp add: demo_env_def aclib_json_def fs_walrus_unpacked_def fs_walrus_old_def
        fs_walrus_def join_def)

section \<open>Extraction\<close>


lemma unpack_archive_mkdir_raises:
  assumes "s d = None" and "mkdir E d s = (Inl e, s1)"
  shows "unpack_archive E d pkg fname s = (Inl e, s1, [Call_exists d, Call_mkdir d])"
  using assms by (simp add: unpack_archive_def prog_defs)

text \<open>In the small world a staging directory below a missing parent cannot be made.\<close>

lemma unpack_archive_missing_parent:
  "unpack_archive demo_env ''nope/sub'' ''aclib'' ''_archives/aclib-1.3.2.rar'' Map.empty =
     (Inl (FileNotFoundError ''nope/sub''), Map.empty,
      [Call_exists ''nope/sub'', Call_mkdir ''nope/sub''])"
  by (rule unpack_archive_mkdir_raises) (simp_all add: demo_env_def demo_mkdir_def dirname_def)









section \<open>The run of \<^verbatim>\<open>main\<close>, case by case\<close>

lemma main_report_False: "main_report E pkg u False s = (Inr (), s, [])"
  by (simp add: main_report_def ret_def)

lemma main_report_True:
  "main_report E pkg u True s =
     (case gap_exec E (gap_command u pkg) (gap_line E) s of
        Inl e \<Rightarrow> (Inl e, s, [Call_gap_exec (gap_command u pkg) (gap_line E)])
      | Inr code \<Rightarrow>
          (Inr (), s,
           [Call_gap_exec (gap_command u pkg) (gap_line E),
            if code \<noteq> 0 then Warning (msg_failed pkg) else Notice (msg_ok pkg)]))"
  by (simp add: main_report_def bnd_def call_read_def warning_def notice_def split: sum.splits)

lemma main_metadata_raises:
  "metadata E s pkg = Inl e \<Longrightarrow> main E pkg s = (Inl e, s, [Call_metadata pkg])"
  by (simp add: main_split bnd_def call_read_def)

lemma main_prepare_raises:
  "metadata E s pkg = Inr json \<Longrightarrow> main_prepare E pkg json s = (Inl e, s1, ev1) \<Longrightarrow>
   main E pkg s = (Inl e, s1, Call_metadata pkg # ev1)"
  by (simp add: main_split bnd_def call_read_def)

lemma main_validate_raises:
  "metadata E s pkg = Inr json \<Longrightarrow>
   main_prepare E pkg json s = (Inr (packed, unpacked), s1, ev1) \<Longrightarrow>
   validate_package E pkg unpacked packed json s1 = (Inl e, s2, ev2) \<Longrightarrow>
   main E pkg s = (Inl e, s2, Call_metadata pkg # ev1 @ ev2)"
  by (simp add: main_split bnd_def call_read_def)

lemma main_validate_False:
  "metadata E s pkg = Inr json \<Longrightarrow>
   main_prepare E pkg json s = (Inr (packed, unpacked), s1, ev1) \<Longrightarrow>
   validate_package E pkg unpacked packed json s1 = (Inr False, s2, ev2) \<Longrightarrow>
   main E pkg s = (Inr (), s2, Call_metadata pkg # ev1 @ ev2)"
  by (simp add: main_split bnd_def call_read_def main_report_False)

lemma main_validate_True:
  "metadata E s pkg = Inr json \<Longrightarrow>
   main_prepare E pkg json s = (Inr (packed, unpacked), s1, ev1) \<Longrightarrow>
   validate_package E pkg unpacked packed json s1 = (Inr True, s2, ev2) \<Longrightarrow>
   main E pkg s =
     (case gap_exec E (gap_command unpacked pkg) (gap_line E) s2 of
        Inl e \<Rightarrow> (Inl e, s2,
                  Call_metadata pkg # ev1 @ ev2
                  @ [Call_gap_exec (gap_command unpacked pkg) (gap_line E)])
      | Inr code \<Rightarrow>
          (Inr (), s2,
           Call_metadata pkg # ev1 @ ev2
           @ [Call_gap_exec (gap_command unpacked pkg) (gap_line E),
              if code \<noteq> 0 then Warning (msg_failed pkg) else Notice (msg_ok pkg)]))"
  by (simp add: main_split bnd_def call_read_def main_report_True split: sum.splits)

lemma main_prepare_no_gap:
  "main_prepare E pkg json s = (r, s1, ev1) \<Longrightarrow> Call_gap_exec c l \<notin> set ev1"
  using emits_onlyD [OF main_prepare_emits [where P = "\<lambda>e. \<forall>c l. e \<noteq> Call_gap_exec c l"]]
  by fastforce

lemma validate_package_no_gap:
  "validate_package E pkg u packed json s = (r, s1, ev1) \<Longrightarrow> Call_gap_exec c l \<notin> set ev1"
  using emits_onlyD [OF validate_package_emits [where P = "\<lambda>e. \<forall>c l. e \<noteq> Call_gap_exec c l"]]
  by fastforce

section \<open>External validation\<close>

text \<open>
  C4: the external validator is called exactly when the run reaches
  \<^verbatim>\<open>validate_package\<close> and that call returns \<^verbatim>\<open>True\<close>.  When it is called and
  exits with a code, \<^verbatim>\<open>main\<close> ends with the warning \<^verbatim>\<open>validation FAILED!\<close> for a
  non-zero code and with the notice \<^verbatim>\<open>validated ok!\<close> for zero.
\<close>

theorem validator_runs_iff_fields_pass:
  "((\<exists>c l. Call_gap_exec c l \<in> set (snd (snd (main E pkg s)))) \<longleftrightarrow>
      (\<exists>json packed unpacked s1 ev1 s2 ev2.
          metadata E s pkg = Inr json
        \<and> main_prepare E pkg json s = (Inr (packed, unpacked), s1, ev1)
        \<and> validate_package E pkg unpacked packed json s1 = (Inr True, s2, ev2)))
   \<and> (\<forall>json packed unpacked s1 ev1 s2 ev2 code.
          metadata E s pkg = Inr json
        \<longrightarrow> main_prepare E pkg json s = (Inr (packed, unpacked), s1, ev1)
        \<longrightarrow> validate_package E pkg unpacked packed json s1 = (Inr True, s2, ev2)
        \<longrightarrow> gap_exec E (gap_command unpacked pkg) (gap_line E) s2 = Inr code
        \<longrightarrow> main E pkg s =
              (Inr (), s2,
               Call_metadata pkg # ev1 @ ev2
               @ [Call_gap_exec (gap_command unpacked pkg) (gap_line E),
                  if code \<noteq> 0 then Warning (msg_failed pkg) else Notice (msg_ok pkg)]))"
proof (intro conjI allI impI)
  fix json packed unpacked s1 ev1 s2 ev2 code
  assume "metadata E s pkg = Inr json"
    and "main_prepare E pkg json s = (Inr (packed, unpacked), s1, ev1)"
    and "validate_package E pkg unpacked packed json s1 = (Inr True, s2, ev2)"
    and "gap_exec E (gap_command unpacked pkg) (gap_line E) s2 = Inr code"
  then show "main E pkg s =
              (Inr (), s2,
               Call_metadata pkg # ev1 @ ev2
               @ [Call_gap_exec (gap_command unpacked pkg) (gap_line E),
                  if code \<noteq> 0 then Warning (msg_failed pkg) else Notice (msg_ok pkg)])"
    by (simp add: main_validate_True)
next
  show "(\<exists>c l. Call_gap_exec c l \<in> set (snd (snd (main E pkg s)))) \<longleftrightarrow>
      (\<exists>json packed unpacked s1 ev1 s2 ev2.
          metadata E s pkg = Inr json
        \<and> main_prepare E pkg json s = (Inr (packed, unpacked), s1, ev1)
        \<and> validate_package E pkg unpacked packed json s1 = (Inr True, s2, ev2))"
  proof (cases "metadata E s pkg")
    case (Inl e)
    then show ?thesis by (simp add: main_metadata_raises)
  next
    case (Inr json)
    obtain rp s1 ev1 where prep: "main_prepare E pkg json s = (rp, s1, ev1)"
      by (cases "main_prepare E pkg json s") auto
    have ng1: "\<And>c l. Call_gap_exec c l \<notin> set ev1"
      using main_prepare_no_gap [OF prep] .
    show ?thesis
    proof (cases rp)
      case (Inl e)
      with Inr prep ng1 show ?thesis by (simp add: main_prepare_raises)
    next
      case pu: (Inr pu)
      obtain packed unpacked where pu_eq: "pu = (packed, unpacked)" by (cases pu) auto
      obtain rv s2 ev2 where val: "validate_package E pkg unpacked packed json s1 = (rv, s2, ev2)"
        by (cases "validate_package E pkg unpacked packed json s1") auto
      have ng2: "\<And>c l. Call_gap_exec c l \<notin> set ev2"
        using validate_package_no_gap [OF val] .
      from prep pu pu_eq have prep': "main_prepare E pkg json s = (Inr (packed, unpacked), s1, ev1)"
        by simp
      show ?thesis
      proof (cases rv)
        case (Inl e)
        with Inr prep' val ng1 ng2 show ?thesis by (simp add: main_validate_raises)
      next
        case ok: (Inr ok)
        show ?thesis
        proof (cases ok)
          case True
          with Inr prep' val ok show ?thesis
            by (auto simp: main_validate_True split: sum.splits)
        next
          case False
          with Inr prep' val ok ng1 ng2 show ?thesis by (simp add: main_validate_False)
        qed
      qed
    qed
  qed
qed

section \<open>Verdict lines\<close>

lemma len_neq: "length a \<noteq> length b \<Longrightarrow> a \<noteq> b"
  by auto

lemma msg_failed_neq:
  "msg_pkg_info pkg p \<noteq> msg_failed pkg"
  "msg_archive pkg p \<noteq> msg_failed pkg"
  "msg_missing pkg \<noteq> msg_failed pkg"
  by (rule len_neq, simp add: msg_pkg_info_def msg_archive_def msg_missing_def msg_failed_def)+

lemma msg_no_dir_neq: "msg_no_dir \<noteq> msg_failed pkg"
proof
  assume "msg_no_dir = msg_failed pkg"
  then have "take 2 (rev msg_no_dir) = take 2 (rev (msg_failed pkg))" by simp
  then show False by (simp add: msg_no_dir_def msg_failed_def)
qed

lemma msg_ok_neq:
  "msg_unpacking pkg a b \<noteq> msg_ok pkg"
  "msg_bad_ext pkg a b \<noteq> msg_ok pkg"
  by (simp_all add: msg_unpacking_def msg_bad_ext_def msg_ok_def)

lemma verdict_lines_none:
  "(\<And>e. e \<in> set evs \<Longrightarrow> not_verdict pkg e) \<Longrightarrow> verdict_lines pkg evs = []"
  by (induction evs) (auto simp: verdict_lines_def not_verdict_def)

lemma verdict_lines_append:
  "verdict_lines pkg (a @ b) = verdict_lines pkg a @ verdict_lines pkg b"
  by (simp add: verdict_lines_def)

lemma main_prepare_no_verdict:
  assumes "main_prepare E pkg json s = (r, s1, ev1)"
  shows "verdict_lines pkg ev1 = []"
proof (rule verdict_lines_none)
  fix e assume "e \<in> set ev1"
  with assms show "not_verdict pkg e"
    by (rule emits_onlyD [OF main_prepare_emits, rotated -2])
       (simp_all add: not_verdict_def msg_ok_neq msg_no_dir_neq)
qed

lemma validate_package_no_verdict:
  assumes "validate_package E pkg u packed json s = (r, s1, ev1)"
  shows "verdict_lines pkg ev1 = []"
proof (rule verdict_lines_none)
  fix e assume "e \<in> set ev1"
  with assms show "not_verdict pkg e"
    by (rule emits_onlyD [OF validate_package_emits, rotated -2])
       (simp_all add: not_verdict_def msg_failed_neq)
qed

lemma verdict_lines_simps:
  "verdict_lines pkg [] = []"
  "verdict_lines pkg (Call_metadata q # es) = verdict_lines pkg es"
  "verdict_lines pkg (Call_gap_exec c l # es) = verdict_lines pkg es"
  "verdict_lines pkg (Warning (msg_failed pkg) # es) = Warning (msg_failed pkg) # verdict_lines pkg es"
  "verdict_lines pkg (Notice (msg_ok pkg) # es) = Notice (msg_ok pkg) # verdict_lines pkg es"
  by (simp_all add: verdict_lines_def)

lemma main_verdict_reached:
  assumes md: "metadata E s pkg = Inr json"
    and prep: "main_prepare E pkg json s = (Inr (packed, unpacked), s1, ev1)"
    and val: "validate_package E pkg unpacked packed json s1 = (rv, s2, ev2)"
  shows "verdict_lines pkg (snd (snd (main E pkg s))) =
          (if rv = Inr True
           then (case gap_exec E (gap_command unpacked pkg) (gap_line E) s2 of
                   Inl e \<Rightarrow> []
                 | Inr code \<Rightarrow>
                     [if code \<noteq> 0 then Warning (msg_failed pkg) else Notice (msg_ok pkg)])
           else [])"
proof -
  note nv = main_prepare_no_verdict [OF prep] validate_package_no_verdict [OF val]
  show ?thesis
  proof (cases rv)
    case (Inl e)
    with md prep val nv show ?thesis
      by (simp add: main_validate_raises verdict_lines_append verdict_lines_simps)
  next
    case (Inr ok)
    show ?thesis
    proof (cases ok)
      case True
      with Inr md prep val nv show ?thesis
        by (simp add: main_validate_True verdict_lines_append verdict_lines_simps
              split: sum.splits)
    next
      case False
      with Inr md prep val nv show ?thesis
        by (simp add: main_validate_False verdict_lines_append verdict_lines_simps)
    qed
  qed
qed

text \<open>
  C2 (amended): a run of \<^verbatim>\<open>main\<close> prints at most one verdict line.  When the run
  reaches \<^verbatim>\<open>validate_package\<close>, it prints exactly one if that call returns \<^verbatim>\<open>True\<close>
  and the validator exits with a code (\<^verbatim>\<open>validated ok!\<close> for zero,
  \<^verbatim>\<open>validation FAILED!\<close> otherwise), and none if \<^verbatim>\<open>validate_package\<close> returns
  \<^verbatim>\<open>False\<close>: then the warnings of the failing checks are all that is printed.
\<close>

theorem main_verdict_lines:
  "length (verdict_lines pkg (snd (snd (main E pkg s)))) \<le> 1
   \<and> (\<forall>json packed unpacked s1 ev1 rv s2 ev2.
          metadata E s pkg = Inr json
        \<longrightarrow> main_prepare E pkg json s = (Inr (packed, unpacked), s1, ev1)
        \<longrightarrow> validate_package E pkg unpacked packed json s1 = (rv, s2, ev2)
        \<longrightarrow> verdict_lines pkg (snd (snd (main E pkg s))) =
              (if rv = Inr True
               then (case gap_exec E (gap_command unpacked pkg) (gap_line E) s2 of
                       Inl e \<Rightarrow> []
                     | Inr code \<Rightarrow>
                         [if code \<noteq> 0 then Warning (msg_failed pkg) else Notice (msg_ok pkg)])
               else []))"
proof (intro conjI allI impI)
  fix json packed unpacked s1 ev1 rv s2 ev2
  assume "metadata E s pkg = Inr json"
    and "main_prepare E pkg json s = (Inr (packed, unpacked), s1, ev1)"
    and "validate_package E pkg unpacked packed json s1 = (rv, s2, ev2)"
  then show "verdict_lines pkg (snd (snd (main E pkg s))) =
              (if rv = Inr True
               then (case gap_exec E (gap_command unpacked pkg) (gap_line E) s2 of
                       Inl e \<Rightarrow> []
                     | Inr code \<Rightarrow>
                         [if code \<noteq> 0 then Warning (msg_failed pkg) else Notice (msg_ok pkg)])
               else [])"
    by (rule main_verdict_reached)
next
  show "length (verdict_lines pkg (snd (snd (main E pkg s)))) \<le> 1"
  proof (cases "metadata E s pkg")
    case (Inl e)
    then show ?thesis by (simp add: main_metadata_raises verdict_lines_simps)
  next
    case (Inr json)
    obtain rp s1 ev1 where prep: "main_prepare E pkg json s = (rp, s1, ev1)"
      by (cases "main_prepare E pkg json s") auto
    show ?thesis
    proof (cases rp)
      case (Inl e)
      with Inr prep main_prepare_no_verdict [OF prep] show ?thesis
        by (simp add: main_prepare_raises verdict_lines_simps)
    next
      case pu: (Inr pu)
      obtain packed unpacked where pu_eq: "pu = (packed, unpacked)" by (cases pu) auto
      obtain rv s2 ev2 where val: "validate_package E pkg unpacked packed json s1 = (rv, s2, ev2)"
        by (cases "validate_package E pkg unpacked packed json s1") auto
      from prep pu pu_eq have prep': "main_prepare E pkg json s = (Inr (packed, unpacked), s1, ev1)"
        by simp
      show ?thesis
        by (simp add: main_verdict_reached [OF Inr prep' val] split: sum.splits)
    qed
  qed
qed

section \<open>Runs in the small world\<close>

lemmas py_defs = item_first_def item_last_def getitem_def endswith_def join_def join_opt_def
  py_str_def lower_defs

lemmas demo_defs = Let_def demo_mkdir_def dirname_def walrus_json_def aclib_json_def edge_json_def fs_walrus_def
  fs_walrus_old_def fs_walrus_unpacked_def unpack_dir_def archive_dir_def

lemma demo_env_simps:
  "metadata demo_env s pkg =
     (if pkg = ''walrus'' then Inr walrus_json
      else if pkg = ''aclib'' then Inr aclib_json
      else if pkg = ''edge'' then Inr edge_json
      else Inl (FileNotFoundError (join pkg ''meta.json'')))"
  "download_archive demo_env pkg url target tries s =
     (Inr (), if s target = None then s(target \<mapsto> File ''2e'') else s)"
  "sha256 demo_env s p = (case s p of Some (File c) \<Rightarrow> Inr c | _ \<Rightarrow> Inl (FileNotFoundError p))"
  "gap_exec demo_env cmd line s = Inr 0"
  "tar_extractall demo_env archive d s =
     (Inr (), s(d \<mapsto> Dir [''Walrus-0.9991''],
               join (join d ''Walrus-0.9991'') ''PackageInfo.g'' \<mapsto> File ''1f''))"
  "zip_extractall demo_env archive d s = (Inl (ExternalError ''BadZipFile''), s)"
  "mkdir demo_env = demo_mkdir"
  "dir_of_this_file demo_env = ''/srv/_tools''"
  by (simp_all add: demo_env_def)

lemma demo_prepare_walrus:
  "main_prepare demo_env ''walrus'' walrus_json fs_walrus_old =
     (Inr (''_archives/walrus-0.9991.tar.gz'', Some ''_unpacked_archives/Walrus-0.9991''),
      fs_walrus_unpacked,
      [Call_download_archive ''walrus'' ''https://example.org/dl/walrus-0.9991.tar.gz''
         ''_archives/walrus-0.9991.tar.gz'' 5,
       Call_exists ''_unpacked_archives'', Call_mkdir ''_unpacked_archives'',
       Notice (msg_unpacking ''walrus'' ''_archives/walrus-0.9991.tar.gz'' ''_unpacked_archives''),
       Call_tar_extractall ''_archives/walrus-0.9991.tar.gz'' ''_unpacked_archives'',
       Call_listdir ''_unpacked_archives''])"
  by (simp add: main_prepare_def unpack_archive_def unpacked_archive_name_def prog_defs py_defs
        demo_defs demo_env_simps)

lemma demo_validate_walrus:
  "validate_package demo_env ''walrus'' (Some ''_unpacked_archives/Walrus-0.9991'')
      ''_archives/walrus-0.9991.tar.gz'' walrus_json fs_walrus_unpacked =
     (Inr True, fs_walrus_unpacked,
      [Call_sha256 ''_unpacked_archives/Walrus-0.9991/PackageInfo.g'',
       Call_sha256 ''_archives/walrus-0.9991.tar.gz'',
       Call_exists ''walrus/meta.json.old''])"
  by (simp add: validate_package_def prog_defs py_defs demo_defs demo_env_simps)

lemma demo_metadata_walrus: "metadata demo_env s ''walrus'' = Inr walrus_json"
  by (simp add: demo_env_def)

lemma demo_gap_exec: "gap_exec demo_env c l s = Inr 0"
  by (simp add: demo_env_def)

theorem validator_runs_iff_fields_pass_witness:
  "main demo_env ''walrus'' fs_walrus_old =
     (Inr (), fs_walrus_unpacked,
      [Call_metadata ''walrus'',
       Call_download_archive ''walrus'' ''https://example.org/dl/walrus-0.9991.tar.gz''
         ''_archives/walrus-0.9991.tar.gz'' 5,
       Call_exists ''_unpacked_archives'', Call_mkdir ''_unpacked_archives'',
       Notice (msg_unpacking ''walrus'' ''_archives/walrus-0.9991.tar.gz'' ''_unpacked_archives''),
       Call_tar_extractall ''_archives/walrus-0.9991.tar.gz'' ''_unpacked_archives'',
       Call_listdir ''_unpacked_archives'',
       Call_sha256 ''_unpacked_archives/Walrus-0.9991/PackageInfo.g'',
       Call_sha256 ''_archives/walrus-0.9991.tar.gz'',
       Call_exists ''walrus/meta.json.old'',
       Call_gap_exec (gap_command (Some ''_unpacked_archives/Walrus-0.9991'') ''walrus'')
         (gap_line demo_env),
       Notice (msg_ok ''walrus'')])"
  using validator_runs_iff_fields_pass [of demo_env "''walrus''" fs_walrus_old,
      THEN conjunct2, rule_format,
      OF demo_metadata_walrus demo_prepare_walrus demo_validate_walrus demo_gap_exec]
  by simp

theorem main_verdict_lines_witness:
  "verdict_lines ''walrus'' (snd (snd (main demo_env ''walrus'' fs_walrus_old)))
     = [Notice (msg_ok ''walrus'')]"
  using main_verdict_lines [of "''walrus''" demo_env fs_walrus_old,
      THEN conjunct2, rule_format,
      OF demo_metadata_walrus demo_prepare_walrus demo_validate_walrus]
  by (simp add: demo_gap_exec)

lemma demo_prepare_walrus_no_old:
  "main_prepare demo_env ''walrus'' walrus_json fs_walrus =
     (Inr (''_archives/walrus-0.9991.tar.gz'', Some ''_unpacked_archives/Walrus-0.9991''),
      fs_walrus(''_unpacked_archives'' \<mapsto> Dir [''Walrus-0.9991''],
                ''_unpacked_archives/Walrus-0.9991/PackageInfo.g'' \<mapsto> File ''1f''),
      [Call_download_archive ''walrus'' ''https://example.org/dl/walrus-0.9991.tar.gz''
         ''_archives/walrus-0.9991.tar.gz'' 5,
       Call_exists ''_unpacked_archives'', Call_mkdir ''_unpacked_archives'',
       Notice (msg_unpacking ''walrus'' ''_archives/walrus-0.9991.tar.gz'' ''_unpacked_archives''),
       Call_tar_extractall ''_archives/walrus-0.9991.tar.gz'' ''_unpacked_archives'',
       Call_listdir ''_unpacked_archives''])"
  by (simp add: main_prepare_def unpack_archive_def unpacked_archive_name_def prog_defs py_defs
        demo_defs demo_env_simps)

lemma demo_validate_walrus_no_old:
  "validate_package demo_env ''walrus'' (Some ''_unpacked_archives/Walrus-0.9991'')
      ''_archives/walrus-0.9991.tar.gz'' walrus_json
      (fs_walrus(''_unpacked_archives'' \<mapsto> Dir [''Walrus-0.9991''],
                ''_unpacked_archives/Walrus-0.9991/PackageInfo.g'' \<mapsto> File ''1f'')) =
     (Inr False,
      fs_walrus(''_unpacked_archives'' \<mapsto> Dir [''Walrus-0.9991''],
                ''_unpacked_archives/Walrus-0.9991/PackageInfo.g'' \<mapsto> File ''1f''),
      [Call_sha256 ''_unpacked_archives/Walrus-0.9991/PackageInfo.g'',
       Call_sha256 ''_archives/walrus-0.9991.tar.gz'',
       Call_exists ''walrus/meta.json.old'',
       Warning (msg_missing ''walrus'')])"
  by (simp add: validate_package_def prog_defs py_defs demo_defs demo_env_simps)

text \<open>
  C2, as the specification states it, fails in the scenario of its own example: the
  archive of \<^verbatim>\<open>walrus\<close> is present, both hashes match, \<^verbatim>\<open>walrus/meta.json.old\<close> is
  absent.  The run returns normally, its last event is the warning about the missing file,
  and no verdict line is printed.
\<close>

theorem main_missing_snapshot_counterexample:
  "fst (main demo_env ''walrus'' fs_walrus) = Inr ()
   \<and> snd (snd (main demo_env ''walrus'' fs_walrus)) =
      [Call_metadata ''walrus'',
       Call_download_archive ''walrus'' ''https://example.org/dl/walrus-0.9991.tar.gz''
         ''_archives/walrus-0.9991.tar.gz'' 5,
       Call_exists ''_unpacked_archives'', Call_mkdir ''_unpacked_archives'',
       Notice (msg_unpacking ''walrus'' ''_archives/walrus-0.9991.tar.gz'' ''_unpacked_archives''),
       Call_tar_extractall ''_archives/walrus-0.9991.tar.gz'' ''_unpacked_archives'',
       Call_listdir ''_unpacked_archives'',
       Call_sha256 ''_unpacked_archives/Walrus-0.9991/PackageInfo.g'',
       Call_sha256 ''_archives/walrus-0.9991.tar.gz'',
       Call_exists ''walrus/meta.json.old'',
       Warning (msg_missing ''walrus'')]
   \<and> verdict_lines ''walrus'' (snd (snd (main demo_env ''walrus'' fs_walrus))) = []"
proof -
  have m: "main demo_env ''walrus'' fs_walrus =
     (Inr (),
      fs_walrus(''_unpacked_archives'' \<mapsto> Dir [''Walrus-0.9991''],
                ''_unpacked_archives/Walrus-0.9991/PackageInfo.g'' \<mapsto> File ''1f''),
      Call_metadata ''walrus'' #
      [Call_download_archive ''walrus'' ''https://example.org/dl/walrus-0.9991.tar.gz''
         ''_archives/walrus-0.9991.tar.gz'' 5,
       Call_exists ''_unpacked_archives'', Call_mkdir ''_unpacked_archives'',
       Notice (msg_unpacking ''walrus'' ''_archives/walrus-0.9991.tar.gz'' ''_unpacked_archives''),
       Call_tar_extractall ''_archives/walrus-0.9991.tar.gz'' ''_unpacked_archives'',
       Call_listdir ''_unpacked_archives''] @
      [Call_sha256 ''_unpacked_archives/Walrus-0.9991/PackageInfo.g'',
       Call_sha256 ''_archives/walrus-0.9991.tar.gz'',
       Call_exists ''walrus/meta.json.old'',
       Warning (msg_missing ''walrus'')])"
    by (rule main_validate_False [OF demo_metadata_walrus demo_prepare_walrus_no_old
          demo_validate_walrus_no_old])
  show ?thesis
    by (simp add: m verdict_lines_def msg_ok_neq msg_failed_neq)
qed

section \<open>Acquisition\<close>

lemma bnd_events_prefix:
  assumes "snd (snd (m s)) = e # rest"
  shows "\<exists>rest'. snd (snd (bnd m f s)) = e # rest'"
proof -
  obtain r s1 ev1 where ms: "m s = (r, s1, ev1)" by (cases "m s") auto
  with assms have ev1: "ev1 = e # rest" by simp
  show ?thesis
  proof (cases r)
    case (Inl err)
    with ms ev1 show ?thesis by (simp add: bnd_def)
  next
    case (Inr x)
    obtain r2 s2 ev2 where "f x s1 = (r2, s2, ev2)" by (cases "f x s1") auto
    with Inr ms ev1 show ?thesis by (simp add: bnd_def)
  qed
qed

lemma item_first_split_on: "item_first (split_on c s) = Inr (hd (split_on c s))"
  using split_on_nonempty [of c s] by (cases "split_on c s") (simp_all add: item_first_def)

lemma item_last_split_on: "item_last (split_on c s) = Inr (last (split_on c s))"
  by (simp add: item_last_def split_on_nonempty)

lemma call_write_events: "snd (snd (call_write ev f s)) = ev # []"
  by (simp add: call_write_def split: prod.splits)

lemma main_prepare_first_event:
  assumes "json ''ArchiveFormats'' = Some formats" and "json ''ArchiveURL'' = Some url"
  shows "\<exists>rest. snd (snd (main_prepare E pkg json s)) =
           Call_download_archive pkg (url @ hd (split_on CHR '' '' formats))
             (join archive_dir (last (split_on CHR ''/'' url) @ hd (split_on CHR '' '' formats))) 5
           # rest"
proof -
  have "main_prepare E pkg json =
     bnd (call_write (Call_download_archive pkg (url @ hd (split_on CHR '' '' formats))
             (join archive_dir (last (split_on CHR ''/'' url) @ hd (split_on CHR '' '' formats))) 5)
            (download_archive E pkg (url @ hd (split_on CHR '' '' formats))
             (join archive_dir (last (split_on CHR ''/'' url) @ hd (split_on CHR '' '' formats))) 5))
       (\<lambda>_. bnd (unpack_archive E unpack_dir pkg
                (join archive_dir (last (split_on CHR ''/'' url) @ hd (split_on CHR '' '' formats))))
         (\<lambda>_. bnd (unpacked_archive_name unpack_dir pkg)
           (\<lambda>unpacked_name. ret
              (join archive_dir (last (split_on CHR ''/'' url) @ hd (split_on CHR '' '' formats)),
               unpacked_name))))"
    using assms
    by (simp add: main_prepare_def getitem_def item_first_split_on item_last_split_on Let_def
          lift_def [abs_def] bnd_def [abs_def])
  then show ?thesis
    by (simp only:) (rule bnd_events_prefix [OF call_write_events])
qed


lemma main_first_events:
  assumes "metadata E s pkg = Inr json"
    and "json ''ArchiveFormats'' = Some formats" and "json ''ArchiveURL'' = Some url"
  shows "\<exists>rest. snd (snd (main E pkg s)) =
           [Call_metadata pkg,
            Call_download_archive pkg (url @ hd (split_on CHR '' '' formats))
             (join archive_dir (last (split_on CHR ''/'' url) @ hd (split_on CHR '' '' formats))) 5]
           @ rest"
proof -
  obtain rest where r: "snd (snd (main_prepare E pkg json s)) =
           Call_download_archive pkg (url @ hd (split_on CHR '' '' formats))
             (join archive_dir (last (split_on CHR ''/'' url) @ hd (split_on CHR '' '' formats))) 5
           # rest"
    using main_prepare_first_event [OF assms(2,3)] by blast
  obtain rest' where r': "snd (snd (bnd (main_prepare E pkg json) (\<lambda>pu.
     bnd (validate_package E pkg (snd pu) (fst pu) json) (\<lambda>ok.
     main_report E pkg (snd pu) ok)) s)) =
           Call_download_archive pkg (url @ hd (split_on CHR '' '' formats))
             (join archive_dir (last (split_on CHR ''/'' url) @ hd (split_on CHR '' '' formats))) 5
           # rest'"
    using bnd_events_prefix [where m = "main_prepare E pkg json" and s = s, OF r] by blast
  show ?thesis
    using assms(1) r'
    by (simp add: main_split bnd_Inr [where m = "call_read _ _"] call_read_def)
qed

lemma join_archive_dir:
  "join archive_dir x = (if x \<noteq> [] \<and> hd x = CHR ''/'' then x else ''_archives/'' @ x)"
  by (simp add: join_def archive_dir_def)

text \<open>
  C7 (amended): for a record holding \<^verbatim>\<open>ArchiveFormats\<close> and \<^verbatim>\<open>ArchiveURL\<close>,
  \<^verbatim>\<open>main\<close> calls \<^verbatim>\<open>download_archive\<close> right after the metadata lookup, with the URL
  \<^verbatim>\<open>ArchiveURL\<close> followed by the first space-separated entry of \<^verbatim>\<open>ArchiveFormats\<close>,
  with 5 tries, and with the target \<^verbatim>\<open>os.path.join("_archives", seg + fmt)\<close>, where
  \<^verbatim>\<open>seg\<close> is the last slash-separated piece of \<^verbatim>\<open>ArchiveURL\<close>.  That target is
  \<^verbatim>\<open>_archives/\<close> followed by \<^verbatim>\<open>seg + fmt\<close>, except when \<^verbatim>\<open>seg\<close> is empty and the
  format begins with a slash: then it is the format itself.
\<close>

theorem main_acquisition:
  assumes "metadata E s pkg = Inr json"
    and "json ''ArchiveFormats'' = Some formats"
    and "json ''ArchiveURL'' = Some url"
    and "fmt = hd (split_on CHR '' '' formats)"
    and "seg = last (split_on CHR ''/'' url)"
  shows "(\<exists>rest. snd (snd (main E pkg s)) =
            [Call_metadata pkg,
             Call_download_archive pkg (url @ fmt) (join archive_dir (seg @ fmt)) 5] @ rest)
       \<and> join archive_dir (seg @ fmt) =
           (if seg = [] \<and> fmt \<noteq> [] \<and> hd fmt = CHR ''/'' then fmt
            else ''_archives/'' @ seg @ fmt)"
proof
  show "\<exists>rest. snd (snd (main E pkg s)) =
            [Call_metadata pkg,
             Call_download_archive pkg (url @ fmt) (join archive_dir (seg @ fmt)) 5] @ rest"
    using main_first_events [OF assms(1-3)] assms(4,5) by simp
  have "seg \<in> set (split_on CHR ''/'' url)"
    using assms(5) split_on_nonempty by simp
  then have "CHR ''/'' \<notin> set seg" by (rule split_on_pieces)
  then have "seg \<noteq> [] \<Longrightarrow> hd seg \<noteq> CHR ''/''"
    by (cases seg) auto
  then show "join archive_dir (seg @ fmt) =
           (if seg = [] \<and> fmt \<noteq> [] \<and> hd fmt = CHR ''/'' then fmt
            else ''_archives/'' @ seg @ fmt)"
    by (cases seg) (auto simp: join_archive_dir)
qed

theorem main_acquisition_witness:
  "take 2 (snd (snd (main demo_env ''walrus'' fs_walrus_old))) =
     [Call_metadata ''walrus'',
      Call_download_archive ''walrus'' ''https://example.org/dl/walrus-0.9991.tar.gz''
        ''_archives/walrus-0.9991.tar.gz'' 5]"
  using main_acquisition [of demo_env fs_walrus_old "''walrus''" walrus_json
      "''.tar.gz .tar.bz2''" "''https://example.org/dl/walrus-0.9991''" "''.tar.gz''"
      "''walrus-0.9991''"]
  by (auto simp: demo_env_simps walrus_json_def)

text \<open>
  C7, as the specification states it, fails for a record whose address ends in a slash
  and whose first format begins with one: the target of the download is the absolute path
  \<^verbatim>\<open>/tmp/x.tar.gz\<close>, not a path below \<^verbatim>\<open>_archives\<close>.
\<close>

theorem main_acquisition_outside_counterexample:
  "take 2 (snd (snd (main demo_env ''edge'' fs_walrus_old))) =
     [Call_metadata ''edge'',
      Call_download_archive ''edge'' ''https://example.org/dl//tmp/x.tar.gz''
        ''/tmp/x.tar.gz'' 5]
   \<and> last (split_on CHR ''/'' ''https://example.org/dl/'') = ''''
   \<and> hd (split_on CHR '' '' ''/tmp/x.tar.gz'') = ''/tmp/x.tar.gz''
   \<and> ''/tmp/x.tar.gz'' \<noteq> ''_archives/'' @ '''' @ ''/tmp/x.tar.gz''"
  using main_first_events [of demo_env fs_walrus_old "''edge''" edge_json
      "''/tmp/x.tar.gz''" "''https://example.org/dl/''"]
  by (auto simp: demo_env_simps edge_json_def join_def archive_dir_def)

section \<open>The loop over the arguments\<close>

lemma started_append: "started (a @ b) = started a @ started b"
  by (induction a rule: started.induct) simp_all

lemma started_none: "(\<And>e. e \<in> set es \<Longrightarrow> \<forall>q. e \<noteq> Call_metadata q) \<Longrightarrow> started es = []"
  by (induction es rule: started.induct) auto

lemma main_prepare_not_started:
  assumes "main_prepare E pkg json s = (r, s1, ev1)"
  shows "started ev1 = []"
proof (rule started_none)
  fix e assume "e \<in> set ev1"
  with assms show "\<forall>q. e \<noteq> Call_metadata q"
    by (rule emits_onlyD [OF main_prepare_emits, rotated -2]) simp_all
qed

lemma validate_package_not_started:
  assumes "validate_package E pkg u packed json s = (r, s1, ev1)"
  shows "started ev1 = []"
proof (rule started_none)
  fix e assume "e \<in> set ev1"
  with assms show "\<forall>q. e \<noteq> Call_metadata q"
    by (rule emits_onlyD [OF validate_package_emits, rotated -2]) simp_all
qed

lemma main_started: "started (snd (snd (main E pkg s))) = [pkg]"
proof (cases "metadata E s pkg")
  case (Inl e)
  then show ?thesis by (simp add: main_metadata_raises)
next
  case (Inr json)
  obtain rp s1 ev1 where prep: "main_prepare E pkg json s = (rp, s1, ev1)"
    by (cases "main_prepare E pkg json s") auto
  note n1 = main_prepare_not_started [OF prep]
  show ?thesis
  proof (cases rp)
    case (Inl e)
    with Inr prep n1 show ?thesis by (simp add: main_prepare_raises)
  next
    case pu: (Inr pu)
    obtain packed unpacked where pu_eq: "pu = (packed, unpacked)" by (cases pu) auto
    obtain rv s2 ev2 where val: "validate_package E pkg unpacked packed json s1 = (rv, s2, ev2)"
      by (cases "validate_package E pkg unpacked packed json s1") auto
    note n2 = validate_package_not_started [OF val]
    from prep pu pu_eq have prep': "main_prepare E pkg json s = (Inr (packed, unpacked), s1, ev1)"
      by simp
    show ?thesis
    proof (cases rv)
      case (Inl e)
      with Inr prep' val n1 n2 show ?thesis
        by (simp add: main_validate_raises started_append)
    next
      case ok: (Inr ok)
      show ?thesis
      proof (cases ok)
        case True
        with Inr prep' val ok n1 n2 show ?thesis
          by (simp add: main_validate_True started_append split: sum.splits)
      next
        case False
        with Inr prep' val ok n1 n2 show ?thesis
          by (simp add: main_validate_False started_append)
      qed
    qed
  qed
qed

lemma batch_started:
  "batch E ps s = (r, s', evs) \<Longrightarrow>
     (r = Inr () \<longrightarrow> started evs = ps)
   \<and> (\<forall>e. r = Inl e \<longrightarrow> (\<exists>n < length ps. started evs = take (Suc n) ps))"
proof (induction ps arbitrary: s r s' evs)
  case Nil
  then show ?case by (auto simp: ret_def)
next
  case (Cons p ps)
  obtain r1 s1 ev1 where m: "main E p s = (r1, s1, ev1)" by (cases "main E p s") auto
  from main_started [of E p s] m have st1: "started ev1 = [p]" by simp
  show ?case
  proof (cases r1)
    case (Inl e)
    with Cons.prems m st1 show ?thesis by (auto simp: bnd_def)
  next
    case (Inr u)
    obtain r2 s2 ev2 where b: "batch E ps s1 = (r2, s2, ev2)" by (cases "batch E ps s1") auto
    from Cons.IH [OF b] have ih: "(r2 = Inr () \<longrightarrow> started ev2 = ps)
       \<and> (\<forall>e. r2 = Inl e \<longrightarrow> (\<exists>n < length ps. started ev2 = take (Suc n) ps))" .
    from Cons.prems m Inr b have res: "r = r2" "evs = ev1 @ ev2" by (auto simp: bnd_def)
    show ?thesis
    proof (intro conjI impI allI)
      assume "r = Inr ()"
      with res ih st1 show "started evs = p # ps" by (simp add: started_append)
    next
      fix e assume "r = Inl e"
      with res ih obtain n where "n < length ps" "started ev2 = take (Suc n) ps" by auto
      with res st1 have "Suc n < length (p # ps)" "started evs = take (Suc (Suc n)) (p # ps)"
        by (simp_all add: started_append)
      then show "\<exists>n < length (p # ps). started evs = take (Suc n) (p # ps)" by blast
    qed
  qed
qed

lemmas run_defs = script_def main_def unpack_archive_def unpacked_archive_name_def
  validate_package_def prog_defs py_defs demo_defs demo_env_simps

lemma batch_position:
  assumes "batch E pre s = (Inr (), s1, ev1)" and "main E p s1 = (rm, s2, ev2)"
  shows "batch E (pre @ p # post) s =
           (case rm of
              Inl e \<Rightarrow> (Inl e, s2, ev1 @ ev2)
            | Inr u \<Rightarrow> (case batch E post s2 of (r3, s3, ev3) \<Rightarrow> (r3, s3, ev1 @ ev2 @ ev3)))"
  using assms
proof (induction pre arbitrary: s ev1)
  case Nil
  then show ?case by (simp add: ret_def bnd_def split: sum.splits prod.splits)
next
  case (Cons q pre)
  obtain rq sq evq where q: "main E q s = (rq, sq, evq)" by (cases "main E q s") auto
  show ?case
  proof (cases rq)
    case (Inl e)
    with q Cons.prems(1) show ?thesis by (simp add: bnd_def)
  next
    case (Inr u)
    obtain rb sb evb where b: "batch E pre sq = (rb, sb, evb)" by (cases "batch E pre sq") auto
    with q Inr Cons.prems(1) have rb: "rb = Inr ()" "sb = s1" "ev1 = evq @ evb"
      by (simp_all add: bnd_def)
    from Cons.IH [of sq evb] b rb Cons.prems(2)
    have "batch E (pre @ p # post) sq =
           (case rm of
              Inl e \<Rightarrow> (Inl e, s2, evb @ ev2)
            | Inr u \<Rightarrow> (case batch E post s2 of (r3, s3, ev3) \<Rightarrow> (r3, s3, evb @ ev2 @ ev3)))"
      by simp
    with q Inr rb show ?thesis
      by (simp add: bnd_def split: sum.splits prod.splits)
  qed
qed

lemma batch_raises_position:
  "batch E ps s = (Inl e, s', evs) \<Longrightarrow>
   \<exists>pre p post s1 ev1 s2 ev2.
      ps = pre @ p # post \<and> batch E pre s = (Inr (), s1, ev1) \<and> main E p s1 = (Inl e, s2, ev2)"
proof (induction ps arbitrary: s s' evs)
  case Nil
  then show ?case by (simp add: ret_def)
next
  case (Cons q ps)
  obtain rq sq evq where q: "main E q s = (rq, sq, evq)" by (cases "main E q s") auto
  show ?case
  proof (cases rq)
    case (Inl e')
    with q Cons.prems have "e' = e" by (simp add: bnd_def)
    with q Inl have "q # ps = [] @ q # ps \<and> batch E [] s = (Inr (), s, [])
        \<and> main E q s = (Inl e, sq, evq)"
      by (simp add: ret_def)
    then show ?thesis by blast
  next
    case (Inr u)
    obtain rb sb evb where b: "batch E ps sq = (rb, sb, evb)" by (cases "batch E ps sq") auto
    with q Inr Cons.prems have "rb = Inl e" by (simp add: bnd_def)
    with b Cons.IH [of sq sb evb] obtain pre p post s1 ev1 s2 ev2 where
      pos: "ps = pre @ p # post" "batch E pre sq = (Inr (), s1, ev1)"
        "main E p s1 = (Inl e, s2, ev2)"
      by blast
    from q Inr pos(2) have "batch E (q # pre) s = (Inr (), s1, evq @ ev1)"
      by (simp add: bnd_def)
    with pos have "q # ps = (q # pre) @ p # post \<and> batch E (q # pre) s = (Inr (), s1, evq @ ev1)
        \<and> main E p s1 = (Inl e, s2, ev2)"
      by simp
    then show ?thesis by blast
  qed
qed

text \<open>
  C8 (amended): the loop begins one run of \<^verbatim>\<open>main\<close> per positional argument, in
  argument order.  If no run raises, every argument is processed.  A run that raises ends
  the loop: the script raises that error, nothing is done after the run, and the script
  raises only so.  A run that returns is followed by the runs of the remaining arguments,
  and a run whose verdict is a failure does return: whenever \<^verbatim>\<open>validate_package\<close>
  returns a boolean, and the validator an exit code if it is called, \<^verbatim>\<open>main\<close> returns
  normally.
\<close>

theorem script_runs_in_order:
  assumes "script E argv s = (r, s', evs)"
  shows "(r = Inr () \<longrightarrow> started evs = drop 1 argv)
       \<and> (\<forall>e. r = Inl e \<longrightarrow>
            (\<exists>n < length (drop 1 argv). started evs = take (Suc n) (drop 1 argv)))
       \<and> (\<forall>pre p post s1 ev1 rm s2 ev2.
              drop 1 argv = pre @ p # post
            \<longrightarrow> batch E pre s = (Inr (), s1, ev1)
            \<longrightarrow> main E p s1 = (rm, s2, ev2)
            \<longrightarrow> (\<forall>e. rm = Inl e \<longrightarrow> r = Inl e \<and> s' = s2 \<and> evs = ev1 @ ev2)
              \<and> (rm = Inr () \<longrightarrow>
                   (r, s', evs) =
                     (case batch E post s2 of (r3, s3, ev3) \<Rightarrow> (r3, s3, ev1 @ ev2 @ ev3))))
       \<and> (\<forall>e. r = Inl e \<longleftrightarrow>
            (\<exists>pre p post s1 ev1 s2 ev2.
                drop 1 argv = pre @ p # post
              \<and> batch E pre s = (Inr (), s1, ev1)
              \<and> main E p s1 = (Inl e, s2, ev2)))
       \<and> (\<forall>p s0 json packed unpacked s1 ev1 ok s2 ev2.
              metadata E s0 p = Inr json
            \<longrightarrow> main_prepare E p json s0 = (Inr (packed, unpacked), s1, ev1)
            \<longrightarrow> validate_package E p unpacked packed json s1 = (Inr ok, s2, ev2)
            \<longrightarrow> (ok \<longrightarrow> (\<exists>code. gap_exec E (gap_command unpacked p) (gap_line E) s2 = Inr code))
            \<longrightarrow> fst (main E p s0) = Inr ())"
proof -
  from assms have run: "batch E (drop 1 argv) s = (r, s', evs)"
    by (simp add: script_def)
  have c1: "r = Inr () \<longrightarrow> started evs = drop 1 argv"
    using batch_started [OF run] by simp
  have c2: "\<forall>e. r = Inl e \<longrightarrow>
            (\<exists>n < length (drop 1 argv). started evs = take (Suc n) (drop 1 argv))"
    using batch_started [OF run] by simp
  have c3: "\<forall>pre p post s1 ev1 rm s2 ev2.
              drop 1 argv = pre @ p # post
            \<longrightarrow> batch E pre s = (Inr (), s1, ev1)
            \<longrightarrow> main E p s1 = (rm, s2, ev2)
            \<longrightarrow> (\<forall>e. rm = Inl e \<longrightarrow> r = Inl e \<and> s' = s2 \<and> evs = ev1 @ ev2)
              \<and> (rm = Inr () \<longrightarrow>
                   (r, s', evs) =
                     (case batch E post s2 of (r3, s3, ev3) \<Rightarrow> (r3, s3, ev1 @ ev2 @ ev3)))"
  proof (intro allI impI)
    fix pre p post s1 ev1 rm s2 ev2
    assume split: "drop 1 argv = pre @ p # post"
      and pre: "batch E pre s = (Inr (), s1, ev1)"
      and m: "main E p s1 = (rm, s2, ev2)"
    from batch_position [OF pre m, of post] run split
    show "(\<forall>e. rm = Inl e \<longrightarrow> r = Inl e \<and> s' = s2 \<and> evs = ev1 @ ev2)
        \<and> (rm = Inr () \<longrightarrow>
             (r, s', evs) =
               (case batch E post s2 of (r3, s3, ev3) \<Rightarrow> (r3, s3, ev1 @ ev2 @ ev3)))"
      by (auto split: sum.splits)
  qed
  have c4: "\<forall>e. r = Inl e \<longleftrightarrow>
            (\<exists>pre p post s1 ev1 s2 ev2.
                drop 1 argv = pre @ p # post
              \<and> batch E pre s = (Inr (), s1, ev1)
              \<and> main E p s1 = (Inl e, s2, ev2))"
  proof (intro allI iffI)
    fix e assume "r = Inl e"
    with run batch_raises_position [of E "drop 1 argv" s e s' evs]
    show "\<exists>pre p post s1 ev1 s2 ev2.
                drop 1 argv = pre @ p # post
              \<and> batch E pre s = (Inr (), s1, ev1)
              \<and> main E p s1 = (Inl e, s2, ev2)"
      by simp
  next
    fix e assume "\<exists>pre p post s1 ev1 s2 ev2.
                drop 1 argv = pre @ p # post
              \<and> batch E pre s = (Inr (), s1, ev1)
              \<and> main E p s1 = (Inl e, s2, ev2)"
    then obtain pre p post s1 ev1 s2 ev2 where
      "drop 1 argv = pre @ p # post" "batch E pre s = (Inr (), s1, ev1)"
      "main E p s1 = (Inl e, s2, ev2)"
      by blast
    with c3 show "r = Inl e" by blast
  qed
  have c5: "\<forall>p s0 json packed unpacked s1 ev1 ok s2 ev2.
              metadata E s0 p = Inr json
            \<longrightarrow> main_prepare E p json s0 = (Inr (packed, unpacked), s1, ev1)
            \<longrightarrow> validate_package E p unpacked packed json s1 = (Inr ok, s2, ev2)
            \<longrightarrow> (ok \<longrightarrow> (\<exists>code. gap_exec E (gap_command unpacked p) (gap_line E) s2 = Inr code))
            \<longrightarrow> fst (main E p s0) = Inr ()"
  proof (intro allI impI)
    fix p s0 json packed unpacked s1 ev1 ok s2 ev2
    assume md: "metadata E s0 p = Inr json"
      and prep: "main_prepare E p json s0 = (Inr (packed, unpacked), s1, ev1)"
      and val: "validate_package E p unpacked packed json s1 = (Inr ok, s2, ev2)"
      and gap: "ok \<longrightarrow> (\<exists>code. gap_exec E (gap_command unpacked p) (gap_line E) s2 = Inr code)"
    show "fst (main E p s0) = Inr ()"
    proof (cases ok)
      case True
      with gap obtain code where "gap_exec E (gap_command unpacked p) (gap_line E) s2 = Inr code"
        by blast
      with True md prep val show ?thesis by (simp add: main_validate_True)
    next
      case False
      with md prep val show ?thesis by (simp add: main_validate_False)
    qed
  qed
  from c1 c2 c3 c4 c5 show ?thesis by (intro conjI)
qed

lemma demo_script_two:
  "fst (script demo_env [''validate_package.py'', ''walrus'', ''walrus''] fs_walrus_old) = Inr ()"
  by (simp add: run_defs msg_unpacking_def)

theorem script_runs_in_order_witness:
  "fst (script demo_env [''validate_package.py'', ''walrus'', ''walrus''] fs_walrus_old) = Inr ()
   \<and> started (snd (snd (script demo_env [''validate_package.py'', ''walrus'', ''walrus'']
         fs_walrus_old))) = [''walrus'', ''walrus'']"
proof -
  have run: "script demo_env [''validate_package.py'', ''walrus'', ''walrus''] fs_walrus_old =
     (fst (script demo_env [''validate_package.py'', ''walrus'', ''walrus''] fs_walrus_old),
      fst (snd (script demo_env [''validate_package.py'', ''walrus'', ''walrus''] fs_walrus_old)),
      snd (snd (script demo_env [''validate_package.py'', ''walrus'', ''walrus''] fs_walrus_old)))"
    by simp
  from script_runs_in_order [OF run, THEN conjunct1] demo_script_two
  show ?thesis by simp
qed

text \<open>
  C8, as the specification states it, fails when a package's run raises.  The archive of
  \<^verbatim>\<open>aclib\<close> has an unknown extension, nothing is extracted, no directory is resolved,
  \<^verbatim>\<open>validate_package\<close> raises on \<^verbatim>\<open>None\<close>, and the loop ends: \<^verbatim>\<open>walrus\<close>, which
  comes next, is never begun.
\<close>

theorem script_aborts_counterexample:
  "fst (script demo_env [''validate_package.py'', ''aclib'', ''walrus''] fs_walrus_old)
     = Inl TypeError
   \<and> started (snd (snd (script demo_env [''validate_package.py'', ''aclib'', ''walrus'']
         fs_walrus_old))) = [''aclib'']"
  by (simp add: run_defs)

end
